theory Spec2Isabelle
  imports Complex_Main "HOL-Library.Multiset"
begin

section \<open>Points, distances and numpy ranges\<close>

text \<open>
  Scan positions are pairs of coordinates. The source computes with IEEE doubles; the
  model computes with exact reals, so rounding is outside of what is proved here.
\<close>

type_synonym point = "real \<times> real"

text \<open>
  \<^verbatim>\<open>np.sqrt((current[0] - p[0])**2 + (current[1] - p[1])**2)\<close> and
  \<^verbatim>\<open>np.linalg.norm(np.array(current) - np.array(p))\<close>: the Euclidean distance.
\<close>

definition euclid :: "point \<Rightarrow> point \<Rightarrow> real" where
  "euclid c p = sqrt ((fst c - fst p)\<^sup>2 + (snd c - snd p)\<^sup>2)"

text \<open>
  \<^verbatim>\<open>np.arange(start, stop, step)\<close>: \<open>\<lceil>(stop - start) / step\<rceil>\<close> values
  \<open>start + i * step\<close>, none when that count is not positive. numpy raises for
  \<open>step = 0\<close>; the callers below check that before they build a range.
\<close>

definition arange :: "real \<Rightarrow> real \<Rightarrow> real \<Rightarrow> real list" where
  "arange start stop step =
     map (\<lambda>i. start + real i * step) [0 ..< nat \<lceil>(stop - start) / step\<rceil>]"

section \<open>Tour optimizer: greedy nearest neighbour\<close>

text \<open>\<^verbatim>\<open>xs.index(v)\<close>: the position of the first element equal to \<open>v\<close>.\<close>

fun index_of :: "'a list \<Rightarrow> 'a \<Rightarrow> nat" where
  "index_of [] v = 0"
| "index_of (x # xs) v = (if x = v then 0 else Suc (index_of xs v))"

text \<open>\<^verbatim>\<open>xs.pop(i)\<close>: the list that remains (the popped element is \<open>xs ! i\<close>).\<close>

definition pop_rest :: "nat \<Rightarrow> 'a list \<Rightarrow> 'a list" where
  "pop_rest i xs = take i xs @ drop (Suc i) xs"

text \<open>
  In \<^verbatim>\<open>_generate_grid_points\<close>:
  \<^verbatim>\<open>distances = [...]; nearest_idx = distances.index(min(distances))\<close>.
\<close>

definition grid_nearest_idx :: "point \<Rightarrow> point list \<Rightarrow> nat" where
  "grid_nearest_idx current unvisited =
     (let distances = map (euclid current) unvisited
      in index_of distances (min_list distances))"

text \<open>
  \<^verbatim>\<open>min(range(len(unvisited)), key=...)\<close>: Python keeps the first element whose key is
  minimal, replacing the best so far only by a strictly smaller key.
\<close>

definition min_by_key :: "('a \<Rightarrow> real) \<Rightarrow> 'a \<Rightarrow> 'a list \<Rightarrow> 'a" where
  "min_by_key key x xs = foldl (\<lambda>best i. if key i < key best then i else best) x xs"

definition nn_nearest_idx :: "point \<Rightarrow> point list \<Rightarrow> nat" where
  "nn_nearest_idx current unvisited =
     min_by_key (\<lambda>i. euclid current (unvisited ! i)) 0 [1 ..< length unvisited]"

lemma index_of_le: "index_of xs v \<le> length xs"
  by (induction xs) auto

lemma index_of_less: "v \<in> set xs \<Longrightarrow> index_of xs v < length xs"
  by (induction xs) auto

lemma min_list_in_set: "xs \<noteq> [] \<Longrightarrow> min_list xs \<in> set xs"
  by (induction xs rule: min_list.induct) (auto simp: min_def split: list.splits)

lemma grid_nearest_idx_less:
  assumes "unvisited \<noteq> []"
  shows "grid_nearest_idx current unvisited < length unvisited"
proof -
  let ?ds = "map (euclid current) unvisited"
  from assms have "?ds \<noteq> []" by simp
  then have "min_list ?ds \<in> set ?ds" by (rule min_list_in_set)
  then have "index_of ?ds (min_list ?ds) < length ?ds" by (rule index_of_less)
  then show ?thesis by (simp add: grid_nearest_idx_def Let_def)
qed

lemma min_by_key_in_set: "min_by_key key x xs \<in> insert x (set xs)"
  unfolding min_by_key_def
proof (induction xs arbitrary: x)
  case Nil
  show ?case by simp
next
  case (Cons y ys)
  have "foldl (\<lambda>best i. if key i < key best then i else best) (if key y < key x then y else x) ys
          \<in> insert (if key y < key x then y else x) (set ys)"
    by (rule Cons.IH)
  then show ?case by (auto split: if_splits)
qed

lemma nn_nearest_idx_less:
  assumes "unvisited \<noteq> []"
  shows "nn_nearest_idx current unvisited < length unvisited"
proof -
  have "nn_nearest_idx current unvisited \<in> insert 0 (set [1 ..< length unvisited])"
    unfolding nn_nearest_idx_def by (rule min_by_key_in_set)
  with assms show ?thesis by auto
qed

lemma length_pop_rest: "i < length xs \<Longrightarrow> length (pop_rest i xs) < length xs"
  by (simp add: pop_rest_def)

lemma mset_pop_rest: "i < length xs \<Longrightarrow> add_mset (xs ! i) (mset (pop_rest i xs)) = mset xs"
proof -
  assume "i < length xs"
  then have "xs = take i xs @ xs ! i # drop (Suc i) xs"
    by (rule id_take_nth_drop)
  then have "mset xs = mset (take i xs @ xs ! i # drop (Suc i) xs)" by simp
  then show ?thesis by (simp add: pop_rest_def)
qed

text \<open>
  The \<^verbatim>\<open>while unvisited:\<close> loop of \<^verbatim>\<open>_generate_grid_points\<close>, on the state
  \<open>(current, scan_path, unvisited)\<close>.
\<close>

function grid_nn_loop :: "point \<Rightarrow> point list \<Rightarrow> point list \<Rightarrow> point list" where
  "grid_nn_loop current scan_path unvisited =
     (if unvisited = [] then scan_path
      else let nearest_idx = grid_nearest_idx current unvisited;
               current' = unvisited ! nearest_idx
           in grid_nn_loop current' (scan_path @ [current']) (pop_rest nearest_idx unvisited))"
  by pat_completeness auto
termination
  by (relation "measure (\<lambda>(c, p, u). length u)")
     (auto simp: grid_nearest_idx_less length_pop_rest)

declare grid_nn_loop.simps [simp del]

text \<open>
  Lines 1587-1597: \<^verbatim>\<open>unvisited = grid_points.copy(); current = unvisited.pop(0);
  scan_path = [current]\<close>, then the loop. The caller has returned before for an empty list.
\<close>

definition grid_nn_order :: "point list \<Rightarrow> point list" where
  "grid_nn_order grid_points =
     (case grid_points of
        [] \<Rightarrow> []
      | current # unvisited \<Rightarrow> grid_nn_loop current [current] unvisited)"

text \<open>The \<^verbatim>\<open>while unvisited:\<close> loop of \<^verbatim>\<open>nearest_neighbor_path\<close>, on \<open>(path, unvisited)\<close>;
  \<open>path\<close> is never empty there.\<close>

function nn_loop :: "point list \<Rightarrow> point list \<Rightarrow> point list" where
  "nn_loop path unvisited =
     (if unvisited = [] then path
      else let current = last path;
               nearest_idx = nn_nearest_idx current unvisited
           in nn_loop (path @ [unvisited ! nearest_idx]) (pop_rest nearest_idx unvisited))"
  by pat_completeness auto
termination
  by (relation "measure (\<lambda>(p, u). length u)")
     (auto simp: nn_nearest_idx_less length_pop_rest)

declare nn_loop.simps [simp del]

definition nearest_neighbor_path :: "point list \<Rightarrow> point list" where
  "nearest_neighbor_path points =
     (if length points \<le> 1 then points
      else nn_loop [hd points] (tl points))"

section \<open>The geometry capability\<close>

text \<open>
  Polygons, their inward offset, containment, bounds and centroids come from the
  \<^verbatim>\<open>shapely\<close> library. The planner is modelled over any provider of these operations;
  \<open>'g\<close> is the type of its geometries.
  \<^item> \<open>Polygon\<close>: \<^verbatim>\<open>Polygon(boundary_coords)\<close>;
  \<^item> \<open>buffer\<close>: \<^verbatim>\<open>g.buffer(d)\<close>, \<open>None\<close> when it raises (the planner catches that);
  \<^item> \<open>geoms\<close>: the parts of a multi-part geometry, \<open>None\<close> when the geometry has no
    attribute \<^verbatim>\<open>geoms\<close>;
  \<^item> \<open>bounds\<close>: \<^verbatim>\<open>(min_x, min_y, max_x, max_y)\<close>;
  \<^item> \<open>contains\<close>: \<^verbatim>\<open>g.contains(Point(x, y))\<close>.
  The other operations are taken to return a value on every geometry.
\<close>

record 'g geometry =
  Polygon :: "point list \<Rightarrow> 'g"
  buffer :: "'g \<Rightarrow> real \<Rightarrow> 'g option"
  is_valid :: "'g \<Rightarrow> bool"
  is_empty :: "'g \<Rightarrow> bool"
  geoms :: "'g \<Rightarrow> 'g list option"
  area :: "'g \<Rightarrow> real"
  bounds :: "'g \<Rightarrow> real \<times> real \<times> real \<times> real"
  contains :: "'g \<Rightarrow> point \<Rightarrow> bool"
  centroid :: "'g \<Rightarrow> point"

text \<open>
  The exceptions that reach the caller: \<open>ArangeError\<close> for \<^verbatim>\<open>np.arange\<close> with a zero
  step, \<open>ValueError\<close> for \<^verbatim>\<open>random.sample\<close> with a negative size, \<open>IndexError\<close> for
  an index outside an array.
\<close>

datatype py_error = ArangeError | ValueError | IndexError

text \<open>Python's \<^verbatim>\<open>max\<close> of a non-empty list (\<open>min_list\<close> is its \<^verbatim>\<open>min\<close>).\<close>

fun max_list :: "real list \<Rightarrow> real" where
  "max_list (x # xs) = (case xs of [] \<Rightarrow> x | _ \<Rightarrow> max x (max_list xs))"
| "max_list [] = 0"

section \<open>Boundary offset engine\<close>

text \<open>
  The outcome of lines 1439-1466 of \<^verbatim>\<open>_generate_grid_scan_path\<close>, which lines 1604-1629
  of \<^verbatim>\<open>_generate_traditional_scan_path\<close> repeat: either the function returns the
  centroid of the house polygon at once, or it goes on with a scan polygon.
\<close>

datatype 'g offset_outcome = Return_centroid point | Scan_polygon 'g

text \<open>
  \<^verbatim>\<open>areas.index(max(areas))\<close> and the choice of that part. \<^verbatim>\<open>max\<close> of an empty list
  raises inside the \<^verbatim>\<open>try\<close>, and the handler goes on with the house polygon; so does a
  \<^verbatim>\<open>buffer\<close> that raises.
\<close>

definition offset_region :: "'g geometry \<Rightarrow> point list \<Rightarrow> real \<Rightarrow> 'g offset_outcome" where
  "offset_region G boundary_points boundary_distance =
     (let boundary_coords = butlast boundary_points;
          house_polygon = Polygon G boundary_coords
      in if boundary_distance > 0 then
           (case buffer G house_polygon (- boundary_distance) of
              None \<Rightarrow> Scan_polygon house_polygon
            | Some inner_polygon \<Rightarrow>
                if \<not> is_valid G inner_polygon \<or> is_empty G inner_polygon
                then Return_centroid (centroid G house_polygon)
                else (case geoms G inner_polygon of
                        None \<Rightarrow> Scan_polygon inner_polygon
                      | Some parts \<Rightarrow>
                          if parts = [] then Scan_polygon house_polygon
                          else let areas = map (area G) parts;
                                   max_area_idx = index_of areas (max_list areas)
                               in Scan_polygon (parts ! max_area_idx)))
         else Scan_polygon house_polygon)"

section \<open>Scan-path planner: grid mode\<close>

text \<open>
  One scan line of \<^verbatim>\<open>_generate_horizontal_scan\<close> (the body of the loop over
  \<^verbatim>\<open>enumerate(y_positions)\<close>): the points it appends to \<^verbatim>\<open>scan_path\<close>.
\<close>

definition horizontal_line ::
  "'g geometry \<Rightarrow> 'g \<Rightarrow> real \<Rightarrow> real \<Rightarrow> real \<Rightarrow> nat \<Rightarrow> real \<Rightarrow> point list" where
  "horizontal_line G scan_polygon min_x max_x step i y =
     (let x_test_points = arange min_x (max_x + step / 20) (step / 20);
          x_points = filter (\<lambda>x. contains G scan_polygon (x, y)) x_test_points
      in if x_points = [] then []
         else let x_start = min_list x_points;
                  x_end = max_list x_points;
                  x_scan_points = arange x_start (x_end + step / 2) step;
                  x_scan_points = (if i mod 2 = 1 then rev x_scan_points else x_scan_points)
              in map (\<lambda>x. (x, y)) (filter (\<lambda>x. contains G scan_polygon (x, y)) x_scan_points))"

definition generate_horizontal_scan ::
  "'g geometry \<Rightarrow> 'g \<Rightarrow> real \<Rightarrow> real \<Rightarrow> real \<Rightarrow> real \<Rightarrow> real \<Rightarrow> py_error + point list" where
  "generate_horizontal_scan G scan_polygon min_x max_x min_y max_y step =
     (if step = 0 then Inl ArangeError
      else let y_positions = arange (min_y + step / 2) max_y step
           in Inr (concat (map (\<lambda>(i, y). horizontal_line G scan_polygon min_x max_x step i y)
                               (enumerate 0 y_positions))))"

definition vertical_line ::
  "'g geometry \<Rightarrow> 'g \<Rightarrow> real \<Rightarrow> real \<Rightarrow> real \<Rightarrow> nat \<Rightarrow> real \<Rightarrow> point list" where
  "vertical_line G scan_polygon min_y max_y step i x =
     (let y_test_points = arange min_y (max_y + step / 20) (step / 20);
          y_points = filter (\<lambda>y. contains G scan_polygon (x, y)) y_test_points
      in if y_points = [] then []
         else let y_start = min_list y_points;
                  y_end = max_list y_points;
                  y_scan_points = arange y_start (y_end + step / 2) step;
                  y_scan_points = (if i mod 2 = 1 then rev y_scan_points else y_scan_points)
              in map (\<lambda>y. (x, y)) (filter (\<lambda>y. contains G scan_polygon (x, y)) y_scan_points))"

definition generate_vertical_scan ::
  "'g geometry \<Rightarrow> 'g \<Rightarrow> real \<Rightarrow> real \<Rightarrow> real \<Rightarrow> real \<Rightarrow> real \<Rightarrow> py_error + point list" where
  "generate_vertical_scan G scan_polygon min_x max_x min_y max_y step =
     (if step = 0 then Inl ArangeError
      else let x_positions = arange (min_x + step / 2) max_x step
           in Inr (concat (map (\<lambda>(i, x). vertical_line G scan_polygon min_y max_y step i x)
                               (enumerate 0 x_positions))))"

definition generate_grid_points ::
  "'g geometry \<Rightarrow> 'g \<Rightarrow> real \<Rightarrow> real \<Rightarrow> real \<Rightarrow> real \<Rightarrow> real \<Rightarrow> py_error + point list" where
  "generate_grid_points G scan_polygon min_x max_x min_y max_y step =
     (if step = 0 then Inl ArangeError
      else let x_positions = arange (min_x + step / 2) max_x step;
               y_positions = arange (min_y + step / 2) max_y step;
               grid_points = concat (map (\<lambda>x. map (\<lambda>y. (x, y))
                                 (filter (\<lambda>y. contains G scan_polygon (x, y)) y_positions))
                               x_positions)
           in if grid_points = [] then Inr [] else Inr (grid_nn_order grid_points))"

text \<open>The four values of the \<^verbatim>\<open>scan_direction\<close> radio buttons.\<close>

datatype direction = Horizontal | Vertical | Both | Grid

text \<open>
  Lines 1468-1509 of \<^verbatim>\<open>_generate_grid_scan_path\<close>: the strategy chosen by the
  direction, on the bounds of the scan polygon, and the centroid when it found nothing.
\<close>

definition grid_scan_on ::
  "'g geometry \<Rightarrow> direction \<Rightarrow> 'g \<Rightarrow> real \<Rightarrow> py_error + point list" where
  "grid_scan_on G scan_direction scan_polygon step =
     (case bounds G scan_polygon of (min_x, min_y, max_x, max_y) \<Rightarrow>
        (case (case scan_direction of
                 Horizontal \<Rightarrow> generate_horizontal_scan G scan_polygon min_x max_x min_y max_y step
               | Vertical \<Rightarrow> generate_vertical_scan G scan_polygon min_x max_x min_y max_y step
               | Both \<Rightarrow>
                   (case generate_horizontal_scan G scan_polygon min_x max_x min_y max_y step of
                      Inl e \<Rightarrow> Inl e
                    | Inr horizontal_path \<Rightarrow>
                        (case generate_vertical_scan G scan_polygon min_x max_x min_y max_y step of
                           Inl e \<Rightarrow> Inl e
                         | Inr vertical_path \<Rightarrow> Inr (horizontal_path @ vertical_path)))
               | Grid \<Rightarrow> generate_grid_points G scan_polygon min_x max_x min_y max_y step) of
           Inl e \<Rightarrow> Inl e
         | Inr scan_path \<Rightarrow>
             if scan_path = [] then Inr [centroid G scan_polygon] else Inr scan_path))"

definition generate_grid_scan_path ::
  "'g geometry \<Rightarrow> direction \<Rightarrow> point list \<Rightarrow> real \<Rightarrow> real \<Rightarrow> py_error + point list" where
  "generate_grid_scan_path G scan_direction boundary_points step boundary_distance =
     (case offset_region G boundary_points boundary_distance of
        Return_centroid c \<Rightarrow> Inr [c]
      | Scan_polygon scan_polygon \<Rightarrow> grid_scan_on G scan_direction scan_polygon step)"

section \<open>Scan-path planner: traditional mode\<close>

text \<open>The grid of one attempt: lines 1638-1646.\<close>

definition attempt_points :: "'g geometry \<Rightarrow> 'g \<Rightarrow> real \<Rightarrow> point list" where
  "attempt_points G scan_polygon current_step =
     (case bounds G scan_polygon of (min_x, min_y, max_x, max_y) \<Rightarrow>
        let x_range = arange (min_x + current_step / 2) (max_x - current_step / 2) current_step;
            y_range = arange (min_y + current_step / 2) (max_y - current_step / 2) current_step
        in concat (map (\<lambda>x. map (\<lambda>y. (x, y))
                     (filter (\<lambda>y. contains G scan_polygon (x, y)) y_range)) x_range))"

text \<open>
  \<^verbatim>\<open>for attempt in range(10)\<close> with its \<^verbatim>\<open>break\<close>: the first argument counts the
  attempts that are left, \<open>valid_points\<close> is the list of the attempt before. The result
  is \<open>valid_points\<close> and \<open>current_step\<close> after the loop.
\<close>

fun adapt_step ::
  "'g geometry \<Rightarrow> 'g \<Rightarrow> int \<Rightarrow> nat \<Rightarrow> point list \<Rightarrow> real \<Rightarrow> point list \<times> real" where
  "adapt_step G scan_polygon target_points 0 valid_points current_step =
     (valid_points, current_step)"
| "adapt_step G scan_polygon target_points (Suc n) valid_points current_step =
     (let valid_points = attempt_points G scan_polygon current_step
      in if int (length valid_points) \<le> target_points then (valid_points, current_step)
         else adapt_step G scan_polygon target_points n valid_points (current_step * (12 / 10)))"

text \<open>
  \<^verbatim>\<open>random.sample(valid_points, target_points)\<close> draws from the pseudo-random source.
  The model takes the drawing function \<open>sample\<close> as a parameter; Python raises ValueError
  for a negative size (a size above the length of the list does not reach it here).
\<close>

definition traditional_scan_on ::
  "'g geometry \<Rightarrow> (point list \<Rightarrow> nat \<Rightarrow> point list) \<Rightarrow> 'g \<Rightarrow> real \<Rightarrow> int
     \<Rightarrow> py_error + point list" where
  "traditional_scan_on G sample scan_polygon step max_points =
     (if step = 0 then Inl ArangeError
      else let target_points = max_points;
               valid_points = fst (adapt_step G scan_polygon target_points 10 [] step);
               valid_points = (if valid_points = [] then [centroid G scan_polygon]
                               else valid_points)
           in if int (length valid_points) > target_points
              then (if target_points < 0 then Inl ValueError
                    else Inr (nearest_neighbor_path (sample valid_points (nat target_points))))
              else Inr (nearest_neighbor_path valid_points))"

definition generate_traditional_scan_path ::
  "'g geometry \<Rightarrow> (point list \<Rightarrow> nat \<Rightarrow> point list) \<Rightarrow> point list \<Rightarrow> real \<Rightarrow> int \<Rightarrow> real
     \<Rightarrow> py_error + point list" where
  "generate_traditional_scan_path G sample boundary_points step max_points boundary_distance =
     (case offset_region G boundary_points boundary_distance of
        Return_centroid c \<Rightarrow> Inr [c]
      | Scan_polygon scan_polygon \<Rightarrow> traditional_scan_on G sample scan_polygon step max_points)"

text \<open>\<^verbatim>\<open>optimize_scan_path\<close>: the dispatch on the \<^verbatim>\<open>grid_scan_mode\<close> check box.\<close>

definition optimize_scan_path ::
  "'g geometry \<Rightarrow> (point list \<Rightarrow> nat \<Rightarrow> point list) \<Rightarrow> bool \<Rightarrow> direction \<Rightarrow> point list
     \<Rightarrow> real \<Rightarrow> int \<Rightarrow> real \<Rightarrow> py_error + point list" where
  "optimize_scan_path G sample grid_scan_mode scan_direction boundary_points step max_points
       boundary_distance =
     (if grid_scan_mode
      then generate_grid_scan_path G scan_direction boundary_points step boundary_distance
      else generate_traditional_scan_path G sample boundary_points step max_points
             boundary_distance)"

text \<open>
  What \<^verbatim>\<open>random.sample\<close> promises for a size within the list: that many elements,
  taken from distinct positions of the list.
\<close>

definition sample_ok :: "(point list \<Rightarrow> nat \<Rightarrow> point list) \<Rightarrow> bool" where
  "sample_ok sample \<longleftrightarrow>
     (\<forall>xs k. k \<le> length xs \<longrightarrow> length (sample xs k) = k \<and> mset (sample xs k) \<subseteq># mset xs)"

section \<open>A provider for rectangular rooms\<close>

text \<open>
  For axis-aligned rectangles the operations have closed forms, which gives a provider
  to run the planner on: a geometry is a list of rectangles \<open>Box min_x min_y max_x max_y\<close>
  (none: the empty geometry; several: a multi-part geometry). \<open>Polygon\<close> is meant for the
  corners of one rectangle, \<open>buffer\<close> for the inward offset (a distance \<open>d \<le> 0\<close>), which
  moves every side inwards by \<open>- d\<close> and leaves nothing when the sides meet. Containment
  is strict: a point of the boundary is not contained. Bounds and centroid are those of
  a single rectangle; the planner asks them of nothing else here.
\<close>

datatype box = Box real real real real

type_synonym boxes = "box list"

fun box_area :: "box \<Rightarrow> real" where
  "box_area (Box x0 y0 x1 y1) = (x1 - x0) * (y1 - y0)"

fun box_contains :: "box \<Rightarrow> point \<Rightarrow> bool" where
  "box_contains (Box x0 y0 x1 y1) (x, y) \<longleftrightarrow> x0 < x \<and> x < x1 \<and> y0 < y \<and> y < y1"

fun box_shrink :: "real \<Rightarrow> box \<Rightarrow> boxes" where
  "box_shrink d (Box x0 y0 x1 y1) =
     (if x0 - d < x1 + d \<and> y0 - d < y1 + d then [Box (x0 - d) (y0 - d) (x1 + d) (y1 + d)]
      else [])"

fun boxes_bounds :: "boxes \<Rightarrow> real \<times> real \<times> real \<times> real" where
  "boxes_bounds [] = (0, 0, 0, 0)"
| "boxes_bounds [Box x0 y0 x1 y1] = (x0, y0, x1, y1)"
| "boxes_bounds (Box x0 y0 x1 y1 # bs) =
     (case boxes_bounds bs of (a0, b0, a1, b1) \<Rightarrow> (min x0 a0, min y0 b0, max x1 a1, max y1 b1))"

fun boxes_centroid :: "boxes \<Rightarrow> point" where
  "boxes_centroid [] = (0, 0)"
| "boxes_centroid (Box x0 y0 x1 y1 # bs) = ((x0 + x1) / 2, (y0 + y1) / 2)"

definition corners_box :: "point list \<Rightarrow> boxes" where
  "corners_box coords =
     (if coords = [] then []
      else [Box (min_list (map fst coords)) (min_list (map snd coords))
                (max_list (map fst coords)) (max_list (map snd coords))])"

definition box_geometry :: "boxes geometry" where
  "box_geometry =
     \<lparr> Polygon = corners_box,
       buffer = (\<lambda>g d. Some (concat (map (box_shrink d) g))),
       is_valid = (\<lambda>g. True),
       is_empty = (\<lambda>g. g = []),
       geoms = (\<lambda>g. if length g \<le> 1 then None else Some (map (\<lambda>b. [b]) g)),
       area = (\<lambda>g. sum_list (map box_area g)),
       bounds = boxes_bounds,
       contains = (\<lambda>g p. list_ex (\<lambda>b. box_contains b p) g),
       centroid = boxes_centroid \<rparr>"

text \<open>The square footprint of the scenarios, a closed ring.\<close>

definition square10 :: "point list" where
  "square10 = [(0, 0), (10, 0), (10, 10), (0, 10), (0, 0)]"

text \<open>One outcome of \<^verbatim>\<open>random.sample\<close>: the draw of the first \<open>k\<close> positions.\<close>

definition sample_first :: "point list \<Rightarrow> nat \<Rightarrow> point list" where
  "sample_first xs k = take k xs"

text \<open>
  A provider whose inward offset falls into three parts, as for rooms joined by
  corridors narrower than twice the clearance; everything else as for rectangles.
\<close>

definition split_rooms_geometry :: "boxes geometry" where
  "split_rooms_geometry = box_geometry \<lparr> buffer := (\<lambda>g d. Some [Box 1 1 3 3, Box 5 1 9 9, Box 4 4 5 5]) \<rparr>"

section \<open>Floor-plan extractor\<close>


















section \<open>Path length\<close>

text \<open>
  The length of a path: the sum of the Euclidean distances between consecutive points.
  The source does not compute it; it is the measure that the property compares.
\<close>

fun path_length :: "point list \<Rightarrow> real" where
  "path_length (p # q # ps) = euclid p q + path_length (q # ps)"
| "path_length [p] = 0"
| "path_length [] = 0"

section \<open>The orderings are permutations\<close>

lemma mset_grid_nn_loop:
  "mset (grid_nn_loop current scan_path unvisited) = mset scan_path + mset unvisited"
proof (induction current scan_path unvisited rule: grid_nn_loop.induct)
  case (1 current scan_path unvisited)
  show ?case
  proof (cases "unvisited = []")
    case True
    then show ?thesis by (simp add: grid_nn_loop.simps)
  next
    case False
    let ?i = "grid_nearest_idx current unvisited"
    from False have less: "?i < length unvisited" by (rule grid_nearest_idx_less)
    have "mset (grid_nn_loop current scan_path unvisited)
            = mset (grid_nn_loop (unvisited ! ?i) (scan_path @ [unvisited ! ?i]) (pop_rest ?i unvisited))"
      using False by (subst grid_nn_loop.simps) (simp add: Let_def)
    also have "\<dots> = mset (scan_path @ [unvisited ! ?i]) + mset (pop_rest ?i unvisited)"
      using False by (rule "1.IH") simp_all
    also have "\<dots> = mset scan_path + add_mset (unvisited ! ?i) (mset (pop_rest ?i unvisited))"
      by simp
    also have "\<dots> = mset scan_path + mset unvisited"
      using less by (simp only: mset_pop_rest)
    finally show ?thesis .
  qed
qed

lemma mset_nn_loop: "mset (nn_loop path unvisited) = mset path + mset unvisited"
proof (induction path unvisited rule: nn_loop.induct)
  case (1 path unvisited)
  show ?case
  proof (cases "unvisited = []")
    case True
    then show ?thesis by (simp add: nn_loop.simps)
  next
    case False
    let ?i = "nn_nearest_idx (last path) unvisited"
    from False have less: "?i < length unvisited" by (rule nn_nearest_idx_less)
    have "mset (nn_loop path unvisited)
            = mset (nn_loop (path @ [unvisited ! ?i]) (pop_rest ?i unvisited))"
      using False by (subst nn_loop.simps) (simp add: Let_def)
    also have "\<dots> = mset (path @ [unvisited ! ?i]) + mset (pop_rest ?i unvisited)"
      using False by (rule "1.IH") simp_all
    also have "\<dots> = mset path + add_mset (unvisited ! ?i) (mset (pop_rest ?i unvisited))"
      by simp
    also have "\<dots> = mset path + mset unvisited"
      using less by (simp only: mset_pop_rest)
    finally show ?thesis .
  qed
qed

lemma mset_grid_nn_order: "mset (grid_nn_order ps) = mset ps"
  by (cases ps) (simp_all add: grid_nn_order_def mset_grid_nn_loop)

lemma mset_nearest_neighbor_path: "mset (nearest_neighbor_path ps) = mset ps"
proof (cases "length ps \<le> 1")
  case True
  then show ?thesis by (simp add: nearest_neighbor_path_def)
next
  case False
  then have "ps \<noteq> []" by auto
  then have "add_mset (hd ps) (mset (tl ps)) = mset ps" by (cases ps) simp_all
  with False show ?thesis by (simp add: nearest_neighbor_path_def mset_nn_loop)
qed

text \<open>
  C4. For every list of points, both greedy nearest-neighbour orderings of the source
  (the loop inside \<^verbatim>\<open>_generate_grid_points\<close> and \<^verbatim>\<open>nearest_neighbor_path\<close> of the
  traditional mode) return a permutation of their input: the same multiset of points,
  nothing added, dropped or duplicated.
\<close>

theorem nearest_neighbor_permutation:
  "mset (grid_nn_order ps) = mset ps \<and> mset (nearest_neighbor_path ps) = mset ps"
  by (simp add: mset_grid_nn_order mset_nearest_neighbor_path)

section \<open>The scan polygon\<close>

lemma offset_region_zero:
  "offset_region G boundary_points 0 = Scan_polygon (Polygon G (butlast boundary_points))"
  by (simp add: offset_region_def)

text \<open>
  C5. For a boundary clearance of 0 no offset is taken: the scan polygon of both planners
  is the polygon built from the input boundary (its closing point dropped, as the polygon
  constructor closes the ring itself), and each planner runs its strategy on that polygon.
\<close>

theorem zero_clearance_keeps_polygon:
  "offset_region G boundary_points 0 = Scan_polygon (Polygon G (butlast boundary_points))
   \<and> generate_grid_scan_path G scan_direction boundary_points step 0
       = grid_scan_on G scan_direction (Polygon G (butlast boundary_points)) step
   \<and> generate_traditional_scan_path G sample boundary_points step max_points 0
       = traditional_scan_on G sample (Polygon G (butlast boundary_points)) step max_points"
  by (simp add: offset_region_def generate_grid_scan_path_def generate_traditional_scan_path_def)

theorem zero_clearance_keeps_polygon_witness:
  "offset_region box_geometry square10 0 = Scan_polygon [Box 0 0 10 10]
   \<and> generate_grid_scan_path box_geometry Grid square10 2 0
       = grid_scan_on box_geometry Grid [Box 0 0 10 10] 2
   \<and> generate_traditional_scan_path box_geometry sample_first square10 2 5 0
       = traditional_scan_on box_geometry sample_first [Box 0 0 10 10] 2 5"
proof -
  have p: "Polygon box_geometry (butlast square10) = [Box 0 0 10 10]"
    by (simp add: box_geometry_def square10_def corners_box_def)
  from zero_clearance_keeps_polygon [of box_geometry square10 Grid 2 sample_first 5]
  show ?thesis by (simp only: p)
qed

lemma offset_region_degenerate:
  assumes "0 < boundary_distance"
    and "buffer G (Polygon G (butlast boundary_points)) (- boundary_distance) = Some inner"
    and "\<not> is_valid G inner \<or> is_empty G inner"
  shows "offset_region G boundary_points boundary_distance
           = Return_centroid (centroid G (Polygon G (butlast boundary_points)))"
  using assms by (simp add: offset_region_def)

lemma square10_offset_6:
  "offset_region box_geometry square10 6 = Return_centroid (5, 5)"
  by (simp add: offset_region_def box_geometry_def square10_def corners_box_def)

text \<open>
  C6. When the inward offset by a positive clearance is invalid or empty, both planners
  return the single position at the centroid of the original polygon. For the square
  footprint with corners (0,0), (10,0), (10,10), (0,10) and clearance 6 the output is
  the one-element sequence [(5,5)], whatever the mode, direction, step and maxPoints.
\<close>

theorem degenerate_offset_falls_back_to_centroid:
  "(\<forall>G boundary_points boundary_distance inner scan_direction step sample max_points.
      0 < boundary_distance
      \<and> buffer G (Polygon G (butlast boundary_points)) (- boundary_distance) = Some inner
      \<and> (\<not> is_valid G inner \<or> is_empty G inner)
      \<longrightarrow> generate_grid_scan_path G scan_direction boundary_points step boundary_distance
            = Inr [centroid G (Polygon G (butlast boundary_points))]
        \<and> generate_traditional_scan_path G sample boundary_points step max_points boundary_distance
            = Inr [centroid G (Polygon G (butlast boundary_points))])
   \<and> generate_grid_scan_path box_geometry scan_direction square10 step 6 = Inr [(5, 5)]
   \<and> generate_traditional_scan_path box_geometry sample square10 step max_points 6 = Inr [(5, 5)]"
  by (simp add: generate_grid_scan_path_def generate_traditional_scan_path_def
        offset_region_degenerate square10_offset_6)

theorem degenerate_offset_falls_back_to_centroid_witness:
  "0 < (6::real)
   \<and> buffer box_geometry (Polygon box_geometry (butlast square10)) (- 6) = Some []
   \<and> is_empty box_geometry []
   \<and> generate_grid_scan_path box_geometry Grid square10 2 6 = Inr [(5, 5)]
   \<and> generate_traditional_scan_path box_geometry sample_first square10 2 5 6 = Inr [(5, 5)]"
proof -
  have b: "buffer box_geometry (Polygon box_geometry (butlast square10)) (- 6) = Some []"
    by (simp add: box_geometry_def square10_def corners_box_def)
  have e: "is_empty box_geometry []"
    by (simp add: box_geometry_def)
  have c: "centroid box_geometry (Polygon box_geometry (butlast square10)) = (5, 5)"
    by (simp add: box_geometry_def square10_def corners_box_def)
  from degenerate_offset_falls_back_to_centroid [THEN conjunct1, rule_format,
      of 6 box_geometry square10 "[]" Grid 2 sample_first 5] b e c
  show ?thesis by simp
qed

lemma max_list_Max: "xs \<noteq> [] \<Longrightarrow> max_list xs = Max (set xs)"
  by (induction xs rule: induct_list012) auto

lemma max_list_in_set: "xs \<noteq> [] \<Longrightarrow> max_list xs \<in> set xs"
  using Max_in [of "set xs"] by (simp add: max_list_Max)

lemma max_list_ge: "x \<in> set xs \<Longrightarrow> x \<le> max_list xs"
  using Max_ge [of "set xs" x] by (cases "xs = []") (simp_all add: max_list_Max)


lemma nth_index_of: "v \<in> set xs \<Longrightarrow> xs ! index_of xs v = v"
  by (induction xs) auto

lemma before_index_of: "j < index_of xs v \<Longrightarrow> xs ! j \<noteq> v"
  by (induction xs arbitrary: j) (auto simp: nth_Cons split: if_splits nat.splits)

lemma index_of_max_list:
  assumes "xs \<noteq> []"
  shows "index_of xs (max_list xs) < length xs"
    and "\<And>j. j < length xs \<Longrightarrow> xs ! j \<le> xs ! index_of xs (max_list xs)"
    and "\<And>j. j < index_of xs (max_list xs) \<Longrightarrow> xs ! j < xs ! index_of xs (max_list xs)"
proof -
  let ?k = "index_of xs (max_list xs)"
  from assms have m: "max_list xs \<in> set xs" by (rule max_list_in_set)
  then show k: "?k < length xs" by (rule index_of_less)
  from m have v: "xs ! ?k = max_list xs" by (rule nth_index_of)
  show "xs ! j \<le> xs ! ?k" if "j < length xs" for j
    using that v by (simp add: max_list_ge)
  show "xs ! j < xs ! ?k" if "j < ?k" for j
  proof -
    from that k have "j < length xs" by simp
    then have "xs ! j \<le> max_list xs" by (simp add: max_list_ge)
    moreover from that have "xs ! j \<noteq> max_list xs" by (rule before_index_of)
    ultimately show ?thesis using v by simp
  qed
qed

lemma offset_region_parts:
  assumes "0 < boundary_distance"
    and "buffer G (Polygon G (butlast boundary_points)) (- boundary_distance) = Some inner"
    and "is_valid G inner" and "\<not> is_empty G inner"
    and "geoms G inner = Some parts" and "parts \<noteq> []"
  shows "offset_region G boundary_points boundary_distance
           = Scan_polygon (parts ! index_of (map (area G) parts) (max_list (map (area G) parts)))"
  using assms by (simp add: offset_region_def Let_def)

text \<open>
  C7. When the inward offset has several parts, the scan polygon is one of them, the
  first of those with the largest area; both planners go on with that part alone.
\<close>

theorem largest_piece_is_scan_polygon:
  assumes "0 < boundary_distance"
    and "buffer G (Polygon G (butlast boundary_points)) (- boundary_distance) = Some inner"
    and "is_valid G inner" and "\<not> is_empty G inner"
    and "geoms G inner = Some parts" and "parts \<noteq> []"
  shows "\<exists>k < length parts.
           offset_region G boundary_points boundary_distance = Scan_polygon (parts ! k)
           \<and> (\<forall>j < length parts. area G (parts ! j) \<le> area G (parts ! k))
           \<and> (\<forall>j < k. area G (parts ! j) < area G (parts ! k))
           \<and> generate_grid_scan_path G scan_direction boundary_points step boundary_distance
               = grid_scan_on G scan_direction (parts ! k) step
           \<and> generate_traditional_scan_path G sample boundary_points step max_points
                 boundary_distance
               = traditional_scan_on G sample (parts ! k) step max_points"
proof -
  let ?areas = "map (area G) parts"
  let ?k = "index_of ?areas (max_list ?areas)"
  from assms(6) have ne: "?areas \<noteq> []" by simp
  from index_of_max_list(1) [OF ne] have k: "?k < length parts" by simp
  have region: "offset_region G boundary_points boundary_distance = Scan_polygon (parts ! ?k)"
    using assms by (rule offset_region_parts)
  have le: "area G (parts ! j) \<le> area G (parts ! ?k)" if "j < length parts" for j
    using index_of_max_list(2) [OF ne, of j] that k by simp
  have less: "area G (parts ! j) < area G (parts ! ?k)" if "j < ?k" for j
    using index_of_max_list(3) [OF ne, of j] that k by simp
  from k region le less show ?thesis
    by (intro exI [of _ ?k])
       (simp add: generate_grid_scan_path_def generate_traditional_scan_path_def)
qed

theorem largest_piece_is_scan_polygon_witness:
  "0 < (1::real)
   \<and> buffer split_rooms_geometry (Polygon split_rooms_geometry (butlast square10)) (- 1)
       = Some [Box 1 1 3 3, Box 5 1 9 9, Box 4 4 5 5]
   \<and> is_valid split_rooms_geometry [Box 1 1 3 3, Box 5 1 9 9, Box 4 4 5 5]
   \<and> \<not> is_empty split_rooms_geometry [Box 1 1 3 3, Box 5 1 9 9, Box 4 4 5 5]
   \<and> geoms split_rooms_geometry [Box 1 1 3 3, Box 5 1 9 9, Box 4 4 5 5]
       = Some [[Box 1 1 3 3], [Box 5 1 9 9], [Box 4 4 5 5]]
   \<and> offset_region split_rooms_geometry square10 1 = Scan_polygon [Box 5 1 9 9]"
proof -
  let ?inner = "[Box 1 1 3 3, Box 5 1 9 9, Box 4 4 5 5]"
  let ?parts = "[[Box 1 1 3 3], [Box 5 1 9 9], [Box 4 4 5 5]]"
  have h1: "0 < (1::real)" by simp
  have h2: "buffer split_rooms_geometry (Polygon split_rooms_geometry (butlast square10)) (- 1)
              = Some ?inner"
    by (simp add: split_rooms_geometry_def box_geometry_def)
  have h3: "is_valid split_rooms_geometry ?inner"
    by (simp add: split_rooms_geometry_def box_geometry_def)
  have h4: "\<not> is_empty split_rooms_geometry ?inner"
    by (simp add: split_rooms_geometry_def box_geometry_def)
  have h5: "geoms split_rooms_geometry ?inner = Some ?parts"
    by (simp add: split_rooms_geometry_def box_geometry_def)
  have h6: "?parts \<noteq> []" by simp
  have areas: "area split_rooms_geometry [Box 1 1 3 3] = 4"
    "area split_rooms_geometry [Box 5 1 9 9] = 32" "area split_rooms_geometry [Box 4 4 5 5] = 1"
    by (simp_all add: split_rooms_geometry_def box_geometry_def)
  from largest_piece_is_scan_polygon [OF h1 h2 h3 h4 h5 h6, of Horizontal 2 sample_first 5]
  obtain k where k: "k < length ?parts"
    and r: "offset_region split_rooms_geometry square10 1 = Scan_polygon (?parts ! k)"
    and m: "\<forall>j < length ?parts. area split_rooms_geometry (?parts ! j)
                \<le> area split_rooms_geometry (?parts ! k)"
    by blast
  from m [rule_format, of 1] have m1: "32 \<le> area split_rooms_geometry (?parts ! k)"
    by (simp add: areas)
  from k have "k = 0 \<or> k = 1 \<or> k = 2" by auto
  with m1 have "k = 1" by (auto simp: areas)
  with r h2 h3 h4 h5 show ?thesis by simp
qed

section \<open>The planner always has a path to return\<close>

lemma length_nearest_neighbor_path: "length (nearest_neighbor_path ps) = length ps"
  using mset_nearest_neighbor_path [of ps] by (metis size_mset)


lemma grid_scan_on_nonempty:
  assumes "step \<noteq> 0"
  shows "\<exists>path. grid_scan_on G scan_direction scan_polygon step = Inr path \<and> path \<noteq> []"
  using assms
  by (cases "bounds G scan_polygon"; cases scan_direction)
     (simp_all add: grid_scan_on_def generate_horizontal_scan_def generate_vertical_scan_def
        generate_grid_points_def Let_def)

lemma adapt_step_Suc:
  "adapt_step G scan_polygon target_points (Suc n) v s =
     (if int (length (attempt_points G scan_polygon s)) \<le> target_points
      then (attempt_points G scan_polygon s, s)
      else adapt_step G scan_polygon target_points n (attempt_points G scan_polygon s)
             (s * (12 / 10)))"
  by (simp add: Let_def)



lemma mset_take_subseteq: "mset (take k xs) \<subseteq># mset xs"
proof -
  have "mset xs = mset (take k xs) + mset (drop k xs)"
    by (simp flip: mset_append)
  then show ?thesis
    by (simp only: mset_subset_eq_add_left)
qed

lemma sample_ok_sample_first: "sample_ok sample_first"
  by (simp add: sample_ok_def sample_first_def mset_take_subseteq)

lemma traditional_scan_on_result:
  assumes step: "step \<noteq> 0" and maxp: "1 \<le> max_points" and smp: "sample_ok sample"
    and found: "fst (adapt_step G P max_points 10 [] step) = found"
  shows "traditional_scan_on G sample P step max_points
           = Inr (nearest_neighbor_path
                   (if found = [] then [centroid G P]
                    else if max_points < int (length found) then sample found (nat max_points)
                    else found))"
    and "max_points < int (length found) \<Longrightarrow> length (sample found (nat max_points)) = nat max_points"
proof -
  show "traditional_scan_on G sample P step max_points
           = Inr (nearest_neighbor_path
                   (if found = [] then [centroid G P]
                    else if max_points < int (length found) then sample found (nat max_points)
                    else found))"
    using step maxp found by (simp add: traditional_scan_on_def Let_def)
  assume "max_points < int (length found)"
  then have "nat max_points \<le> length found" by simp
  with smp show "length (sample found (nat max_points)) = nat max_points"
    by (simp add: sample_ok_def)
qed

text \<open>
  C1 (as amended). For every boundary polygon, every clearance, every direction and every
  step > 0, the planner returns a sequence of at least one scan point in grid mode, and in
  traditional mode provided that maxPoints is at least 1.
\<close>

theorem planner_path_nonempty:
  assumes "0 < step" and "grid_scan_mode \<or> 1 \<le> max_points" and "sample_ok sample"
  shows "\<exists>path. optimize_scan_path G sample grid_scan_mode scan_direction boundary_points step
                  max_points boundary_distance = Inr path
                \<and> 1 \<le> length path"
proof (cases "offset_region G boundary_points boundary_distance")
  case (Return_centroid c)
  then show ?thesis
    by (simp add: optimize_scan_path_def generate_grid_scan_path_def
          generate_traditional_scan_path_def)
next
  case (Scan_polygon P)
  from assms(1) have step: "step \<noteq> 0" by simp
  show ?thesis
  proof (cases grid_scan_mode)
    case True
    from grid_scan_on_nonempty [OF step, of G scan_direction P]
    obtain path where "grid_scan_on G scan_direction P step = Inr path" and "path \<noteq> []"
      by blast
    then have "1 \<le> length path" by (cases path) simp_all
    with True Scan_polygon \<open>grid_scan_on G scan_direction P step = Inr path\<close> show ?thesis
      by (simp add: optimize_scan_path_def generate_grid_scan_path_def)
  next
    case False
    with assms(2) have maxp: "1 \<le> max_points" by simp
    define found where "found = fst (adapt_step G P max_points 10 [] step)"
    define kept where "kept = (if found = [] then [centroid G P]
        else if max_points < int (length found) then sample found (nat max_points) else found)"
    have res: "traditional_scan_on G sample P step max_points = Inr (nearest_neighbor_path kept)"
      unfolding kept_def
      by (rule traditional_scan_on_result(1) [OF step maxp assms(3)]) (simp add: found_def)
    have "1 \<le> length kept"
    proof (cases "found = []")
      case True
      then show ?thesis by (simp add: kept_def)
    next
      case nonempty: False
      show ?thesis
      proof (cases "max_points < int (length found)")
        case True
        from traditional_scan_on_result(2) [OF step maxp assms(3) _ True, of G P]
        have "length (sample found (nat max_points)) = nat max_points"
          by (simp add: found_def)
        with True nonempty maxp show ?thesis by (simp add: kept_def)
      next
        case False
        with nonempty show ?thesis by (cases found) (simp_all add: kept_def)
      qed
    qed
    then have "1 \<le> length (nearest_neighbor_path kept)"
      by (simp only: length_nearest_neighbor_path)
    with res False Scan_polygon show ?thesis
      by (simp add: optimize_scan_path_def generate_traditional_scan_path_def)
  qed
qed


lemma square10_offset_0: "offset_region box_geometry square10 0 = Scan_polygon [Box 0 0 10 10]"
  by (simp add: offset_region_def box_geometry_def square10_def corners_box_def)

lemma square10_bounds: "bounds box_geometry [Box 0 0 10 10] = (0, 0, 10, 10)"
  by (simp add: box_geometry_def)

lemma square10_centroid: "centroid box_geometry [Box 0 0 10 10] = (5, 5)"
  by (simp add: box_geometry_def)


lemma arange_empty: "(stop - start) / step \<le> 0 \<Longrightarrow> arange start stop step = []"
  by (simp add: arange_def)

lemma square10_attempt_20: "attempt_points box_geometry [Box 0 0 10 10] 20 = []"
  by (simp add: attempt_points_def square10_bounds arange_empty)

lemma square10_attempt_12: "attempt_points box_geometry [Box 0 0 10 10] 12 = []"
  by (simp add: attempt_points_def square10_bounds arange_empty)

theorem planner_path_nonempty_witness:
  "(0::real) < 20 \<and> (False \<or> (1::int) \<le> 1) \<and> sample_ok sample_first
   \<and> optimize_scan_path box_geometry sample_first False Horizontal square10 20 1 0
       = Inr [(5, 5)]"
proof -
  have h1: "(0::real) < 20" by simp
  have h2: "False \<or> (1::int) \<le> 1" by simp
  have r: "optimize_scan_path box_geometry sample_first False Horizontal square10 20 1 0
             = Inr [(5, 5)]"
    by (simp add: optimize_scan_path_def generate_traditional_scan_path_def square10_offset_0
          traditional_scan_on_def adapt_step_Suc [of _ _ _ 9, simplified] square10_attempt_20
          square10_centroid nearest_neighbor_path_def)
  from planner_path_nonempty [OF h1 h2 sample_ok_sample_first,
      of box_geometry Horizontal square10 0] r
  show ?thesis using sample_ok_sample_first by simp
qed

text \<open>
  With maxPoints = 0 the traditional mode returns the empty sequence: on the square
  footprint with step 12 no grid point is found, the centroid is put in, and the draw
  of 0 points from that list leaves nothing.
\<close>

theorem planner_path_empty_counterexample:
  "optimize_scan_path box_geometry sample_first False Horizontal square10 12 0 0 = Inr []"
  by (simp add: optimize_scan_path_def generate_traditional_scan_path_def square10_offset_0
        traditional_scan_on_def adapt_step_Suc [of _ _ _ 9, simplified] square10_attempt_12
        square10_centroid nearest_neighbor_path_def sample_first_def)

section \<open>Traditional mode: the adaptive step\<close>

lemma arange_rec:
  assumes "0 < step"
  shows "arange start stop step
           = (if start < stop then start # arange (start + step) stop step else [])"
proof (cases "start < stop")
  case False
  with assms have "(stop - start) / step \<le> 0"
    by (simp add: divide_le_0_iff)
  with False show ?thesis by (simp add: arange_empty)
next
  case True
  let ?n = "nat \<lceil>(stop - (start + step)) / step\<rceil>"
  from assms have "(stop - start) / step = (stop - (start + step)) / step + 1"
    by (simp add: field_simps)
  then have c: "\<lceil>(stop - start) / step\<rceil> = \<lceil>(stop - (start + step)) / step\<rceil> + 1"
    by simp
  from True assms have "0 < (stop - start) / step" by simp
  then have "0 < \<lceil>(stop - start) / step\<rceil>" by simp
  with c have n: "nat \<lceil>(stop - start) / step\<rceil> = Suc ?n" by linarith
  have "arange start stop step = map (\<lambda>i. start + real i * step) [0 ..< Suc ?n]"
    by (simp only: arange_def n)
  also have "\<dots> = start # map (\<lambda>i. start + real (Suc i) * step) [0 ..< ?n]"
    by (simp add: upt_conv_Cons map_Suc_upt [symmetric] del: upt_Suc)
  also have "map (\<lambda>i. start + real (Suc i) * step) [0 ..< ?n] = arange (start + step) stop step"
    by (simp add: arange_def algebra_simps)
  finally show ?thesis using True by simp
qed











section \<open>Grid mode: the horizontal sweep\<close>

text \<open>
  The square footprint with clearance 1 and step 2: the scan polygon is the square from
  (1,1) to (9,9); a scan line has its test points at 1, 1.1, ..., 9, of which 1.1, ..., 8.9
  are inside.
\<close>

lemma inner_test_points:
  "filter (\<lambda>x. 1 < x \<and> x < 9) (arange 1 (91 / 10) (1 / 10)) = arange (11 / 10) 9 (1 / 10)"
  by (simp add: arange_rec)

lemma inner_test_points_min: "min_list (arange (11 / 10) 9 (1 / 10)) = 11 / 10"
  by (simp add: arange_rec)

lemma inner_test_points_max: "max_list (arange (11 / 10) 9 (1 / 10)) = 89 / 10"
  by (simp add: arange_rec)

lemma inner_test_points_nonempty: "arange (11 / 10) 9 (1 / 10) \<noteq> []"
  by (subst arange_rec) simp_all

lemma inner_scan_points: "arange (11 / 10) (99 / 10) 2 = [11 / 10, 31 / 10, 51 / 10, 71 / 10, 91 / 10]"
  by (simp add: arange_rec)


lemma inner_square_contains:
  "contains box_geometry [Box 1 1 9 9] (x, y) \<longleftrightarrow> 1 < x \<and> x < 9 \<and> 1 < y \<and> y < 9"
  by (simp add: box_geometry_def)

lemma inner_square_line:
  assumes "1 < y" and "y < 9"
  shows "horizontal_line box_geometry [Box 1 1 9 9] 1 9 2 i y =
           (if i mod 2 = 1 then [(71 / 10, y), (51 / 10, y), (31 / 10, y), (11 / 10, y)]
            else [(11 / 10, y), (31 / 10, y), (51 / 10, y), (71 / 10, y)])"
proof -
  have c: "contains box_geometry [Box 1 1 9 9] (x, y) \<longleftrightarrow> 1 < x \<and> x < 9" for x
    using assms by (simp add: inner_square_contains)
  show ?thesis
    by (simp add: horizontal_line_def c Let_def inner_test_points inner_test_points_nonempty
          inner_test_points_min inner_test_points_max inner_scan_points)
qed



lemma inner_scan_lines: "arange 2 9 2 = [2, 4, 6, 8]"
  by (simp add: arange_rec)

lemma inner_square_horizontal_scan:
  "generate_horizontal_scan box_geometry [Box 1 1 9 9] 1 9 1 9 2 = Inr
     [(11 / 10, 2), (31 / 10, 2), (51 / 10, 2), (71 / 10, 2),
      (71 / 10, 4), (51 / 10, 4), (31 / 10, 4), (11 / 10, 4),
      (11 / 10, 6), (31 / 10, 6), (51 / 10, 6), (71 / 10, 6),
      (71 / 10, 8), (51 / 10, 8), (31 / 10, 8), (11 / 10, 8)]"
  by (simp add: generate_horizontal_scan_def inner_scan_lines inner_square_line)



lemma arange_member:
  "x \<in> set (arange start stop step) \<Longrightarrow> \<exists>k::nat. x = start + real k * step"
  by (auto simp: arange_def)



lemma horizontal_line_points:
  assumes "p \<in> set (horizontal_line G P min_x max_x step i y)"
  shows "snd p = y" and "contains G P p"
    and "\<exists>k::nat. fst p = min_list (filter (\<lambda>x. contains G P (x, y))
                                  (arange min_x (max_x + step / 20) (step / 20)))
                          + real k * step"
proof -
  let ?x_points = "filter (\<lambda>x. contains G P (x, y)) (arange min_x (max_x + step / 20) (step / 20))"
  let ?scan = "arange (min_list ?x_points) (max_list ?x_points + step / 2) step"
  from assms have ne: "?x_points \<noteq> []"
    by (auto simp: horizontal_line_def Let_def split: if_splits)
  from assms ne have "p \<in> (\<lambda>x. (x, y)) ` {x \<in> set ?scan. contains G P (x, y)}"
    by (auto simp: horizontal_line_def Let_def split: if_splits)
  then obtain x where p: "p = (x, y)" and x: "x \<in> set ?scan" and c: "contains G P (x, y)"
    by blast
  from p show "snd p = y" by simp
  from p c show "contains G P p" by simp
  from arange_member [OF x] p
  show "\<exists>k::nat. fst p = min_list ?x_points + real k * step" by simp
qed





section \<open>Grid mode: emitted points are inside the scan polygon\<close>

lemma vertical_line_contained:
  assumes "p \<in> set (vertical_line G P min_y max_y step i x)"
  shows "contains G P p"
  using assms by (auto simp: vertical_line_def Let_def split: if_splits)

lemma set_grid_nn_order: "set (grid_nn_order ps) = set ps"
  using mset_grid_nn_order [of ps] by (metis set_mset_mset)

lemma horizontal_scan_contained:
  assumes "generate_horizontal_scan G P min_x max_x min_y max_y step = Inr path"
    and "p \<in> set path"
  shows "contains G P p"
proof -
  from assms obtain i y where "p \<in> set (horizontal_line G P min_x max_x step i y)"
    by (auto simp: generate_horizontal_scan_def Let_def split: if_splits)
  then show ?thesis by (rule horizontal_line_points(2))
qed

lemma vertical_scan_contained:
  assumes "generate_vertical_scan G P min_x max_x min_y max_y step = Inr path"
    and "p \<in> set path"
  shows "contains G P p"
proof -
  from assms obtain i x where "p \<in> set (vertical_line G P min_y max_y step i x)"
    by (auto simp: generate_vertical_scan_def Let_def split: if_splits)
  then show ?thesis by (rule vertical_line_contained)
qed

lemma grid_points_contained:
  assumes "generate_grid_points G P min_x max_x min_y max_y step = Inr path"
    and "p \<in> set path"
  shows "contains G P p"
proof -
  let ?grid = "concat (map (\<lambda>x. map (\<lambda>y. (x, y))
                 (filter (\<lambda>y. contains G P (x, y)) (arange (min_y + step / 2) max_y step)))
               (arange (min_x + step / 2) max_x step))"
  from assms(1) have "path = [] \<or> path = grid_nn_order ?grid"
    by (auto simp: generate_grid_points_def Let_def split: if_splits)
  with assms(2) have "p \<in> set ?grid"
    by (auto simp: set_grid_nn_order)
  then show ?thesis by auto
qed

text \<open>
  C10. Every point that the horizontal sweep, the vertical sweep or the grid-point sampling
  returns satisfies the containment test against the scan polygon.
\<close>

theorem grid_strategies_emit_contained_points:
  assumes "generate_horizontal_scan G P min_x max_x min_y max_y step = Inr path
         \<or> generate_vertical_scan G P min_x max_x min_y max_y step = Inr path
         \<or> generate_grid_points G P min_x max_x min_y max_y step = Inr path"
    and "p \<in> set path"
  shows "contains G P p"
  using assms
  by (blast intro: horizontal_scan_contained vertical_scan_contained grid_points_contained)


lemma grid_nn_order_pair: "grid_nn_order [p, q] = [p, q]"
  by (simp add: grid_nn_order_def grid_nn_loop.simps [of _ _ "[q]"] grid_nn_loop.simps [of _ _ "[]"]
        grid_nearest_idx_def pop_rest_def)

lemma small_room_grid_points:
  "generate_grid_points box_geometry [Box 0 0 4 2] 0 4 0 2 2 = Inr [(1, 1), (3, 1)]"
proof -
  have x: "arange 1 4 2 = [1, 3]" and y: "arange 1 2 2 = [1]"
    by (simp_all add: arange_rec)
  have c: "contains box_geometry [Box 0 0 4 2] (a, b) \<longleftrightarrow> 0 < a \<and> a < 4 \<and> 0 < b \<and> b < 2"
    for a b by (simp add: box_geometry_def)
  show ?thesis
    by (simp add: generate_grid_points_def x y c grid_nn_order_pair)
qed

theorem grid_strategies_emit_contained_points_witness:
  "generate_horizontal_scan box_geometry [Box 1 1 9 9] 1 9 1 9 2 = Inr
     [(11 / 10, 2), (31 / 10, 2), (51 / 10, 2), (71 / 10, 2),
      (71 / 10, 4), (51 / 10, 4), (31 / 10, 4), (11 / 10, 4),
      (11 / 10, 6), (31 / 10, 6), (51 / 10, 6), (71 / 10, 6),
      (71 / 10, 8), (51 / 10, 8), (31 / 10, 8), (11 / 10, 8)]
   \<and> contains box_geometry [Box 1 1 9 9] (71 / 10, 4)
   \<and> generate_grid_points box_geometry [Box 0 0 4 2] 0 4 0 2 2 = Inr [(1, 1), (3, 1)]
   \<and> contains box_geometry [Box 0 0 4 2] (3, 1)"
proof -
  have "contains box_geometry [Box 1 1 9 9] (71 / 10, 4)"
    by (rule grid_strategies_emit_contained_points
          [OF disjI1 [OF inner_square_horizontal_scan]]) simp
  moreover have "contains box_geometry [Box 0 0 4 2] (3, 1)"
    by (rule grid_strategies_emit_contained_points
          [OF disjI2 [OF disjI2 [OF small_room_grid_points]]]) simp
  ultimately show ?thesis
    using inner_square_horizontal_scan small_room_grid_points by simp
qed

section \<open>Path length of the greedy ordering\<close>

lemma euclid_commute: "euclid p q = euclid q p"
  by (simp add: euclid_def power2_commute)

lemma euclid_on_axis: "euclid (a, 0) (b, 0) = \<bar>a - b\<bar>"
  by (simp add: euclid_def)

lemma nn_loop_Nil: "nn_loop path [] = path"
  by (simp add: nn_loop.simps)

lemma nn_loop_single: "nn_loop path [q] = path @ [q]"
  by (subst nn_loop.simps) (simp add: nn_nearest_idx_def min_by_key_def pop_rest_def nn_loop_Nil)

lemma nn_loop_pair:
  "nn_loop path [b, c] =
     (if euclid (last path) c < euclid (last path) b then path @ [c, b] else path @ [b, c])"
  by (subst nn_loop.simps)
     (simp add: nn_nearest_idx_def min_by_key_def pop_rest_def nn_loop_single)

lemma grid_nn_loop_Nil: "grid_nn_loop current scan_path [] = scan_path"
  by (simp add: grid_nn_loop.simps)

lemma grid_nn_loop_single: "grid_nn_loop current scan_path [q] = scan_path @ [q]"
  by (subst grid_nn_loop.simps) (simp add: grid_nearest_idx_def pop_rest_def grid_nn_loop_Nil)

lemma grid_nn_loop_pair:
  "grid_nn_loop a scan_path [b, c] =
     (if euclid a c < euclid a b then scan_path @ [c, b] else scan_path @ [b, c])"
  by (subst grid_nn_loop.simps)
     (auto simp: grid_nearest_idx_def pop_rest_def grid_nn_loop_single min_def)

text \<open>
  C9 (as amended). For every list of 2 or 3 points, the path through the points in greedy
  nearest-neighbour order (either implementation, starting from the first point) is not
  longer than the path through them in the order given.
\<close>

theorem nearest_neighbor_not_longer_up_to_three:
  assumes "2 \<le> length ps" and "length ps \<le> 3"
  shows "path_length (nearest_neighbor_path ps) \<le> path_length ps
         \<and> path_length (grid_nn_order ps) \<le> path_length ps"
proof -
  from assms have "length ps = 2 \<or> length ps = 3" by linarith
  then consider a b where "ps = [a, b]" | a b c where "ps = [a, b, c]"
    by (auto simp: length_Suc_conv numeral_2_eq_2 numeral_3_eq_3)
  then show ?thesis
  proof cases
    case 1
    then show ?thesis
      by (simp add: nearest_neighbor_path_def nn_loop_single grid_nn_order_def
            grid_nn_loop_single)
  next
    case 2
    have "euclid c b = euclid b c" by (rule euclid_commute)
    with 2 show ?thesis
      by (simp add: nearest_neighbor_path_def nn_loop_pair grid_nn_order_def grid_nn_loop_pair)
  qed
qed


theorem nearest_neighbor_not_longer_up_to_three_witness:
  "2 \<le> length [(0, 0), (- 3, 0), (2, 0) :: point]
   \<and> length [(0, 0), (- 3, 0), (2, 0) :: point] \<le> 3
   \<and> nearest_neighbor_path [(0, 0), (- 3, 0), (2, 0)] = [(0, 0), (2, 0), (- 3, 0)]
   \<and> path_length (nearest_neighbor_path [(0, 0), (- 3, 0), (2, 0)])
       \<le> path_length [(0, 0), (- 3, 0), (2, 0)]"
proof -
  have h1: "2 \<le> length [(0, 0), (- 3, 0), (2, 0) :: point]" by simp
  have h2: "length [(0, 0), (- 3, 0), (2, 0) :: point] \<le> 3" by simp
  have "nearest_neighbor_path [(0, 0), (- 3, 0), (2, 0)] = [(0, 0), (2, 0), (- 3, 0)]"
    by (simp add: nearest_neighbor_path_def nn_loop_pair euclid_on_axis)
  with nearest_neighbor_not_longer_up_to_three [OF h1 h2] show ?thesis by simp
qed

lemma four_points_nearest_neighbor_path:
  "nearest_neighbor_path [(0, 0), (- 3, 0), (2, 0), (6, 0)] = [(0, 0), (2, 0), (6, 0), (- 3, 0)]"
proof -
  have r: "[1 ..< 3] = [1, 2::nat]" by (simp add: upt_rec)
  have first: "nn_nearest_idx (0, 0) [(- 3, 0), (2, 0), (6, 0)] = 1"
    by (simp add: nn_nearest_idx_def min_by_key_def r euclid_on_axis)
  have "nn_loop [(0, 0)] [(- 3, 0), (2, 0), (6, 0)]
          = nn_loop [(0, 0), (2, 0)] [(- 3, 0), (6, 0)]"
    by (subst nn_loop.simps) (simp add: first pop_rest_def)
  also have "\<dots> = [(0, 0), (2, 0), (6, 0), (- 3, 0)]"
    by (simp add: nn_loop_pair euclid_on_axis)
  finally show ?thesis by (simp add: nearest_neighbor_path_def)
qed

text \<open>
  Four points on a line, given as 0, -3, 2, 6: the order given has length 3 + 5 + 4 = 12,
  the greedy order 0, 2, 6, -3 has length 2 + 4 + 9 = 15.
\<close>

theorem nearest_neighbor_longer_counterexample:
  "nearest_neighbor_path [(0, 0), (- 3, 0), (2, 0), (6, 0)] = [(0, 0), (2, 0), (6, 0), (- 3, 0)]
   \<and> path_length (nearest_neighbor_path [(0, 0), (- 3, 0), (2, 0), (6, 0)]) = 15
   \<and> path_length [(0, 0), (- 3, 0), (2, 0), (6, 0)] = 12"
  by (simp add: four_points_nearest_neighbor_path euclid_on_axis)

section \<open>The floor plan is a closed ring\<close>
















end
